theory Spec2Isabelle
  imports Complex_Main
begin

section \<open>Tn-HMM essentiality analysis (pytransit/analysis/hmm.py)\<close>

text \<open>
  A shallow embedding of the parts of \<^verbatim>\<open>HMMMethod\<close> that the specification talks about:
  the insertion-density estimate \<^verbatim>\<open>calculate_pins\<close>, the run length and the
  transition matrix computed in \<^verbatim>\<open>Run\<close>, the constructor's iteration estimate, the
  gene-level call of \<^verbatim>\<open>post_process_genes\<close>, and the three passes
  \<^verbatim>\<open>forward_procedure\<close>, \<^verbatim>\<open>backward_procedure\<close> and \<^verbatim>\<open>viterbi\<close>.

  Every Python exception the modelled code can raise is a value of \<open>error\<close>; a function
  that can raise returns \<open>error + 'a\<close> with \<open>Inl\<close> for the exception.
\<close>

datatype error = IndexError | KeyError | ValueError | ZeroDivisionError | AttributeError

subsection \<open>calculate\_pins\<close>

text \<open>
  \<^verbatim>\<open>
  def calculate_pins(self, reads):
      non_ess_reads = []
      temp = []
      for rd in reads:
          if rd >=1:
              if len(temp) < 10: non_ess_reads.extend(temp)
              non_ess_reads.append(rd)
              temp = []
          else:
              temp.append(rd)
      return(sum([1 for rd in non_ess_reads if rd >= 1])/float(len(non_ess_reads)) )
  \<close>
  The reads are the combined counts (numbers compared with 1); the loop state is the pair
  \<open>(non_ess_reads, temp)\<close>. The final quotient is a Python int divided by a Python float,
  which raises \<^verbatim>\<open>ZeroDivisionError\<close> when the pool is empty.
\<close>

fun pins_scan :: "real list \<Rightarrow> real list \<times> real list \<Rightarrow> real list \<times> real list" where
  "pins_scan [] (non_ess, temp) = (non_ess, temp)"
| "pins_scan (rd # reads) (non_ess, temp) =
     (if rd \<ge> 1
      then pins_scan reads ((if length temp < 10 then non_ess @ temp else non_ess) @ [rd], [])
      else pins_scan reads (non_ess, temp @ [rd]))"

definition non_ess_reads :: "real list \<Rightarrow> real list" where
  "non_ess_reads reads = fst (pins_scan reads ([], []))"

definition calculate_pins :: "real list \<Rightarrow> error + real" where
  "calculate_pins reads =
     (let pool = non_ess_reads reads
      in if length pool = 0 then Inl ZeroDivisionError
         else Inr (real (length (filter (\<lambda>rd. rd \<ge> 1) pool)) / real (length pool)))"

text \<open>The prefix of a read sequence that ends with its last count \<open>\<ge> 1\<close>.\<close>

definition upto_last_nonzero :: "real list \<Rightarrow> real list" where
  "upto_last_nonzero reads = rev (dropWhile (\<lambda>rd. \<not> rd \<ge> 1) (rev reads))"

text \<open>The scenario of the specification: two zeros, a one, eight zeros, a one.\<close>

definition scenario_reads :: "real list" where
  "scenario_reads = [0, 0, 1, 0, 0, 0, 0, 0, 0, 0, 0, 1]"

subsection \<open>Run: the run length\<close>



fun run_loop :: "(nat \<Rightarrow> bool) \<Rightarrow> nat list \<Rightarrow> nat \<Rightarrow> nat" where
  "run_loop below [] r = r"
| "run_loop below (k # ks) r = (if below k then k else run_loop below ks k)"



subsection \<open>Run: the transition matrix\<close>

text \<open>
  \<^verbatim>\<open>
  Nstates = 4
  A = numpy.zeros((Nstates,Nstates))
  a = math.log1p(-B[int(Nstates/2)](1)**r)
  b = r*math.log(B[int(Nstates/2)](1)) + math.log(1.0/3)
  for i in range(Nstates):
      A[i] = [b]*Nstates
      A[i][i] = a
  \<close>
  \<open>p\<close> stands for \<^verbatim>\<open>B[int(Nstates/2)](1)\<close>, the emission probability of the middle state
  at the observation 1. \<^verbatim>\<open>math.log\<close> and \<^verbatim>\<open>math.log1p\<close> raise \<^verbatim>\<open>ValueError\<close>
  outside their domains.
\<close>

definition Nstates :: nat where
  "Nstates = 4"

definition py_log1p :: "real \<Rightarrow> error + real" where
  "py_log1p x = (if x \<le> - 1 then Inl ValueError else Inr (ln (1 + x)))"

definition py_log :: "real \<Rightarrow> error + real" where
  "py_log x = (if x \<le> 0 then Inl ValueError else Inr (ln x))"

definition transition_matrix :: "real \<Rightarrow> nat \<Rightarrow> error + real list list" where
  "transition_matrix p r =
     (case py_log1p (- (p ^ r)) of Inl e \<Rightarrow> Inl e | Inr a \<Rightarrow>
      (case py_log p of Inl e \<Rightarrow> Inl e | Inr lp \<Rightarrow>
       (case py_log (1 / 3) of Inl e \<Rightarrow> Inl e | Inr l3 \<Rightarrow>
          (let b = real r * lp + l3
           in Inr (map (\<lambda>i. (replicate Nstates b)[i := a]) [0..<Nstates])))))"

subsection \<open>HMMMethod.\_\_init\_\_\<close>

text \<open>
  \<^verbatim>\<open>
  try:
      T = len([1 for line in open(ctrldata[0]).readlines() if not line.startswith("#")])
      self.maxiterations = T*4 + 1
  except:
      self.self.maxiterations = 100
  self.count = 1
  \<close>
  The file system is a map from paths to the lines of the readable files. Anything that
  fails inside \<^verbatim>\<open>try\<close> (an empty \<^verbatim>\<open>ctrldata\<close>, a file that cannot be opened) enters
  the handler. The handler reads the attribute \<^verbatim>\<open>self.self\<close>, which the object does not
  have, so the handler itself raises \<^verbatim>\<open>AttributeError\<close> and the constructor does not
  return. The base-class constructor that runs first is not part of the model.
\<close>

record hmm_method =
  maxiterations :: nat
  count :: nat

definition startswith_hash :: "string \<Rightarrow> bool" where
  "startswith_hash line = (case line of [] \<Rightarrow> False | c # _ \<Rightarrow> c = CHR ''#'')"

definition HMMMethod_init :: "(string \<rightharpoonup> string list) \<Rightarrow> string list \<Rightarrow> error + hmm_method" where
  "HMMMethod_init files ctrldata =
     (case (case ctrldata of [] \<Rightarrow> None | path # _ \<Rightarrow> files path) of
        Some lines \<Rightarrow>
          (let T = length (filter (\<lambda>line. \<not> startswith_hash line) lines)
           in Inr \<lparr>maxiterations = T * 4 + 1, count = 1\<rparr>)
      | None \<Rightarrow> Inl AttributeError)"

subsection \<open>post\_process\_genes: the gene-level call\<close>

text \<open>
  \<^verbatim>\<open>
  pos2state = dict([(position[t],states[t]) for t in range(len(states))])
  theta = numpy.mean(data > 0)
  ...
  for gene in G:
      genestates = [pos2state[p] for p in gene.position]
      statedist = {}
      for st in genestates:
          if st not in statedist: statedist[st] = 0
          statedist[st] +=1
      n0 = statedist.get(0, 0); ...
      if gene.n > 0:
          E = tnseq_tools.ExpectedRuns(gene.n,   1.0 - theta)
          V = tnseq_tools.VarR(gene.n,   1.0 - theta)
          if n0 == gene.n: S = "ES"
          elif n0 >= int(E+(3*math.sqrt(V))): S = "ES"
          else:
              temp = max([(statedist.get(s, 0), s) for s in [0, 1, 2, 3]])[1]
              S = num2label[temp]
      else:
          E = 0.0
          V = 0.0
          S = "N/A"
  \<close>
  The class of \<^verbatim>\<open>gene\<close> and the functions \<^verbatim>\<open>ExpectedRuns\<close> and \<^verbatim>\<open>VarR\<close> belong to
  \<^verbatim>\<open>tnseq_tools\<close>, which is not among the sources: a gene is a record of the attributes
  the loop reads, and the two functions are parameters that return a number or raise.
  \<open>theta\<close> is a parameter as well. Floats are idealised as real numbers.
\<close>

record gene =
  gene_orf :: string
  gene_n :: nat
  gene_position :: "int list"

definition make_pos2state :: "int list \<Rightarrow> nat list \<Rightarrow> error + (int \<rightharpoonup> nat)" where
  \<comment> \<open>a later pair overrides an earlier one with the same position\<close>
  "make_pos2state position states =
     (if length position < length states then Inl IndexError
      else Inr (map_of (rev (zip position states))))"

fun genestates :: "(int \<rightharpoonup> nat) \<Rightarrow> int list \<Rightarrow> error + nat list" where
  "genestates pos2state [] = Inr []"
| "genestates pos2state (p # ps) =
     (case pos2state p of
        None \<Rightarrow> Inl KeyError
      | Some st \<Rightarrow>
          (case genestates pos2state ps of Inl e \<Rightarrow> Inl e | Inr sts \<Rightarrow> Inr (st # sts)))"

definition dict_get :: "('k \<rightharpoonup> 'v) \<Rightarrow> 'k \<Rightarrow> 'v \<Rightarrow> 'v" where
  "dict_get d k dflt = (case d k of None \<Rightarrow> dflt | Some v \<Rightarrow> v)"

definition count_state :: "nat \<Rightarrow> (nat \<rightharpoonup> nat) \<Rightarrow> (nat \<rightharpoonup> nat)" where
  "count_state st statedist =
     (let d = (if statedist st = None then statedist(st \<mapsto> 0) else statedist)
      in d(st \<mapsto> dict_get d st 0 + 1))"

definition statedist_of :: "nat list \<Rightarrow> (nat \<rightharpoonup> nat)" where
  "statedist_of sts = fold count_state sts Map.empty"

definition num2label :: "nat \<rightharpoonup> string" where
  "num2label = [0 \<mapsto> ''ES'', 1 \<mapsto> ''GD'', 2 \<mapsto> ''NE'', 3 \<mapsto> ''GA'']"

text \<open>Python compares tuples lexicographically; \<^verbatim>\<open>max\<close> keeps the first of equal maxima.\<close>

fun tuple_gt :: "nat \<times> nat \<Rightarrow> nat \<times> nat \<Rightarrow> bool" where
  "tuple_gt (a, b) (c, d) = (a > c \<or> (a = c \<and> b > d))"

fun py_max :: "(nat \<times> nat) list \<Rightarrow> error + (nat \<times> nat)" where
  "py_max [] = Inl ValueError"
| "py_max (x # xs) = Inr (fold (\<lambda>y m. if tuple_gt y m then y else m) xs x)"

text \<open>\<^verbatim>\<open>int(x)\<close> truncates towards zero; \<^verbatim>\<open>math.sqrt\<close> raises on a negative argument.\<close>

definition py_int :: "real \<Rightarrow> int" where
  "py_int x = (if 0 \<le> x then \<lfloor>x\<rfloor> else \<lceil>x\<rceil>)"

definition py_sqrt :: "real \<Rightarrow> error + real" where
  "py_sqrt x = (if x < 0 then Inl ValueError else Inr (sqrt x))"

definition majority_call :: "(nat \<rightharpoonup> nat) \<Rightarrow> error + string" where
  "majority_call statedist =
     (case py_max (map (\<lambda>s. (dict_get statedist s 0, s)) [0, 1, 2, 3]) of
        Inl e \<Rightarrow> Inl e
      | Inr (c, temp) \<Rightarrow> (case num2label temp of None \<Rightarrow> Inl KeyError | Some S \<Rightarrow> Inr S))"

definition gene_call ::
  "(nat \<Rightarrow> real \<Rightarrow> error + real) \<Rightarrow> (nat \<Rightarrow> real \<Rightarrow> error + real) \<Rightarrow> real \<Rightarrow>
   (int \<rightharpoonup> nat) \<Rightarrow> gene \<Rightarrow> error + string" where
  "gene_call ExpectedRuns VarR theta pos2state g =
     (case genestates pos2state (gene_position g) of
        Inl e \<Rightarrow> Inl e
      | Inr sts \<Rightarrow>
          (let statedist = statedist_of sts; n0 = dict_get statedist 0 0
           in if gene_n g > 0 then
                (case ExpectedRuns (gene_n g) (1 - theta) of Inl e \<Rightarrow> Inl e | Inr E \<Rightarrow>
                 (case VarR (gene_n g) (1 - theta) of Inl e \<Rightarrow> Inl e | Inr V \<Rightarrow>
                    if n0 = gene_n g then Inr ''ES''
                    else (case py_sqrt V of Inl e \<Rightarrow> Inl e | Inr sq \<Rightarrow>
                            if int n0 \<ge> py_int (E + 3 * sq) then Inr ''ES''
                            else majority_call statedist)))
              else Inr ''N/A''))"

text \<open>
  The majority vote as the specification words it: the first state, in the order
  0, 1, 2, 3, whose tally no other state exceeds.
\<close>

definition first_index_majority :: "nat list \<Rightarrow> nat option" where
  "first_index_majority sts =
     find (\<lambda>s. list_all (\<lambda>s'. count_list sts s' \<le> count_list sts s) [0, 1, 2, 3]) [0, 1, 2, 3]"

subsection \<open>Floating-point values\<close>

text \<open>
  The three passes compute with numpy floats, where a division by zero yields an
  infinity and \<open>0 * inf\<close> yields NaN instead of raising. A float is modelled as a finite
  real number or one of the three special values, and the special values follow
  IEEE 754. The exact result \<open>x\<close> of an operation on finite values becomes the float
  \<open>fin x\<close>: it overflows to the infinity of its sign when its magnitude exceeds the
  largest double, and it underflows to zero when its magnitude is at most half the
  smallest positive double. Between these bounds the result is kept exact: rounding to
  53 bits is not modelled, and the two zeros are not distinguished.
\<close>

datatype fl = Fin real | PInf | NInf | NaN

definition DBL_MAX :: real where
  "DBL_MAX = (2 - 1 / 2 ^ 52) * 2 ^ 1023"

definition DBL_TINY :: real where
  \<comment> \<open>half the smallest positive double \<open>2^-1074\<close>\<close>
  "DBL_TINY = 1 / 2 ^ 1075"

definition fin :: "real \<Rightarrow> fl" where
  "fin x = (if DBL_MAX < x then PInf
            else if x < - DBL_MAX then NInf
            else if \<bar>x\<bar> \<le> DBL_TINY then Fin 0
            else Fin x)"


fun fl_neg :: "fl \<Rightarrow> fl" where
  "fl_neg (Fin x) = Fin (- x)"
| "fl_neg PInf = NInf"
| "fl_neg NInf = PInf"
| "fl_neg NaN = NaN"

fun fl_add :: "fl \<Rightarrow> fl \<Rightarrow> fl" where
  "fl_add (Fin x) (Fin y) = fin (x + y)"
| "fl_add NaN y = NaN"
| "fl_add x NaN = NaN"
| "fl_add PInf NInf = NaN"
| "fl_add NInf PInf = NaN"
| "fl_add PInf y = PInf"
| "fl_add x PInf = PInf"
| "fl_add NInf y = NInf"
| "fl_add x NInf = NInf"

fun inf_times :: "fl \<Rightarrow> real \<Rightarrow> fl" where
  "inf_times i x = (if x = 0 then NaN else if 0 < x then i else fl_neg i)"

fun fl_mul :: "fl \<Rightarrow> fl \<Rightarrow> fl" where
  "fl_mul (Fin x) (Fin y) = fin (x * y)"
| "fl_mul NaN y = NaN"
| "fl_mul x NaN = NaN"
| "fl_mul PInf (Fin y) = inf_times PInf y"
| "fl_mul NInf (Fin y) = inf_times NInf y"
| "fl_mul (Fin x) PInf = inf_times PInf x"
| "fl_mul (Fin x) NInf = inf_times NInf x"
| "fl_mul PInf PInf = PInf"
| "fl_mul NInf NInf = PInf"
| "fl_mul PInf NInf = NInf"
| "fl_mul NInf PInf = NInf"

text \<open>\<^verbatim>\<open>1.0/x\<close> on a numpy float: a zero divisor gives \<open>inf\<close> and a warning, no exception.\<close>

fun fl_recip :: "fl \<Rightarrow> fl" where
  "fl_recip (Fin x) = (if x = 0 then PInf else fin (1 / x))"
| "fl_recip PInf = Fin 0"
| "fl_recip NInf = Fin 0"
| "fl_recip NaN = NaN"

text \<open>\<^verbatim>\<open>numpy.log\<close>: \<open>-inf\<close> at zero and NaN on negative numbers, no exception.\<close>

fun fl_log :: "fl \<Rightarrow> fl" where
  "fl_log (Fin x) = (if 0 < x then Fin (ln x) else if x = 0 then NInf else NaN)"
| "fl_log PInf = PInf"
| "fl_log NInf = NaN"
| "fl_log NaN = NaN"


fun fl_is_zero :: "fl \<Rightarrow> bool" where
  "fl_is_zero (Fin x) = (x = 0)"
| "fl_is_zero PInf = False"
| "fl_is_zero NInf = False"
| "fl_is_zero NaN = False"

text \<open>\<^verbatim>\<open>numpy.nan_to_num\<close>: NaN becomes 0, an infinity the largest finite float of its sign.\<close>

fun nan_to_num :: "fl \<Rightarrow> fl" where
  "nan_to_num (Fin x) = Fin x"
| "nan_to_num PInf = Fin DBL_MAX"
| "nan_to_num NInf = Fin (- DBL_MAX)"
| "nan_to_num NaN = Fin 0"

definition np_sum :: "fl list \<Rightarrow> fl" where
  "np_sum v = foldl fl_add (Fin 0) v"

text \<open>
  A two-dimensional array is the list of its rows. \<open>rectangular A M K\<close> says that \<open>A\<close>
  has \<open>M\<close> rows of \<open>K\<close> entries each; a list whose rows differ in length does not
  denote an array, and the model reports \<^verbatim>\<open>ValueError\<close> for it.
  \<open>vec_mat\<close> is \<^verbatim>\<open>numpy.dot(v, A)\<close> and \<open>mat_vec\<close> is \<^verbatim>\<open>numpy.dot(A, v)\<close>.
\<close>

definition ncols :: "fl list list \<Rightarrow> nat" where
  "ncols A = (case A of [] \<Rightarrow> 0 | row # _ \<Rightarrow> length row)"

definition rectangular :: "fl list list \<Rightarrow> nat \<Rightarrow> nat \<Rightarrow> bool" where
  "rectangular A M K = (length A = M \<and> list_all (\<lambda>row. length row = K) A)"

definition vec_mat :: "fl list \<Rightarrow> fl list list \<Rightarrow> nat \<Rightarrow> nat \<Rightarrow> fl list" where
  "vec_mat v A M K = map (\<lambda>j. np_sum (map (\<lambda>i. fl_mul (v ! i) (A ! i ! j)) [0..<M])) [0..<K]"

definition mat_vec :: "fl list list \<Rightarrow> fl list \<Rightarrow> nat \<Rightarrow> nat \<Rightarrow> fl list" where
  "mat_vec A v M K = map (\<lambda>i. np_sum (map (\<lambda>j. fl_mul (A ! i ! j) (v ! j)) [0..<K])) [0..<M]"

text \<open>
  An elementwise operation of a vector \<open>u\<close> with a vector \<open>v\<close> of length \<open>N\<close>, stored into
  a column of length \<open>N\<close>: numpy broadcasts a \<open>u\<close> of length 1 and raises \<^verbatim>\<open>ValueError\<close>
  on any other length mismatch. \<open>store_column\<close> is the assignment of a vector to a
  column of length \<open>N\<close>, which broadcasts a vector of length 1.
\<close>

definition broadcast2 :: "(fl \<Rightarrow> fl \<Rightarrow> fl) \<Rightarrow> fl list \<Rightarrow> fl list \<Rightarrow> error + fl list" where
  "broadcast2 f u v =
     (if length u = length v then Inr (map2 f u v)
      else (case u of [x] \<Rightarrow> Inr (map (f x) v) | _ \<Rightarrow> Inl ValueError))"

definition store_column :: "nat \<Rightarrow> 'a list \<Rightarrow> error + 'a list" where
  "store_column N u =
     (if length u = N then Inr u
      else (case u of [x] \<Rightarrow> Inr (replicate N x) | _ \<Rightarrow> Inl ValueError))"

definition emissions :: "(real \<Rightarrow> fl) list \<Rightarrow> real \<Rightarrow> fl list" where
  \<comment> \<open>\<^verbatim>\<open>[B[i](o) for i in range(N)]\<close>\<close>
  "emissions B ob = map (\<lambda>Bi. Bi ob) B"

definition floor_value :: fl where
  "floor_value = Fin (1 / 10 ^ 13)"

definition initial_PI :: "fl list" where
  \<comment> \<open>\<^verbatim>\<open>PI[0] = 0.7; PI[1:] = 0.3/(Nstates-1)\<close>\<close>
  "initial_PI = Fin (7 / 10) # replicate (Nstates - 1) (Fin ((3 / 10) / real (Nstates - 1)))"

subsection \<open>forward\_procedure\<close>

text \<open>
  \<^verbatim>\<open>
  def forward_procedure(self, A, B, PI, O):
      T = len(O)
      N = len(B)
      alpha = numpy.zeros((N,  T))
      C = numpy.zeros(T)
      alpha[:,0] = PI * [B[i](O[0]) for i in range(N)]
      C[0] = 1.0/numpy.sum(alpha[:,0])
      alpha[:,0] = C[0] * alpha[:,0]
      for t in xrange(1, T):
          b_o = [B[i](O[t]) for i in range(N)]
          alpha[:,t] = numpy.dot(alpha[:,t-1], A) * b_o
          C[t] = numpy.nan_to_num(1.0/numpy.sum(alpha[:,t]))
          alpha[:,t] = numpy.nan_to_num(alpha[:,t] * C[t])
          if numpy.sum(alpha[:,t]) == 0:
              alpha[:,t] = 0.0000000000001
          ...
      log_Prob_Obs = - (numpy.sum(numpy.log(C)))
      return(( log_Prob_Obs, alpha, C ))
  \<close>
  An \<open>N \<times> T\<close> array is the list of its \<open>T\<close> columns \<open>alpha[:,t]\<close>, each a list of \<open>N\<close>
  entries. The progress counter and the progress messages are not modelled.
  \<^verbatim>\<open>numpy.dot(alpha[:,t-1], A)\<close> needs \<open>A\<close> to have \<open>N\<close> rows; the product with \<open>b_o\<close>
  then broadcasts a result of length 1 (an \<open>N \<times> 1\<close> matrix).
\<close>

definition forward_step ::
  "fl list list \<Rightarrow> (real \<Rightarrow> fl) list \<Rightarrow> fl list \<Rightarrow> real \<Rightarrow> error + (fl list \<times> fl)" where
  "forward_step A B prev ob =
     (let N = length B; b_o = emissions B ob; K = ncols A
      in if \<not> rectangular A N K then Inl ValueError
         else
           (case broadcast2 fl_mul (vec_mat prev A N K) b_o of
              Inl e \<Rightarrow> Inl e
            | Inr a1 \<Rightarrow>
                (let Ct = nan_to_num (fl_recip (np_sum a1));
                     a2 = map (\<lambda>x. nan_to_num (fl_mul x Ct)) a1;
                     a3 = (if fl_is_zero (np_sum a2) then replicate N floor_value else a2)
                 in Inr (a3, Ct))))"

fun forward_loop ::
  "fl list list \<Rightarrow> (real \<Rightarrow> fl) list \<Rightarrow> fl list \<Rightarrow> real list \<Rightarrow> error + (fl list list \<times> fl list)"
  where
  "forward_loop A B prev [] = Inr ([], [])"
| "forward_loop A B prev (ob # obs) =
     (case forward_step A B prev ob of
        Inl e \<Rightarrow> Inl e
      | Inr (col, Ct) \<Rightarrow>
          (case forward_loop A B col obs of
             Inl e \<Rightarrow> Inl e
           | Inr (cols, Cs) \<Rightarrow> Inr (col # cols, Ct # Cs)))"

definition forward_procedure ::
  "fl list list \<Rightarrow> (real \<Rightarrow> fl) list \<Rightarrow> fl list \<Rightarrow> real list \<Rightarrow>
   error + (fl \<times> fl list list \<times> fl list)" where
  "forward_procedure A B PI Os =
     (case Os of
        [] \<Rightarrow> Inl IndexError
      | ob # obs \<Rightarrow>
          (case broadcast2 fl_mul PI (emissions B ob) of
             Inl e \<Rightarrow> Inl e
           | Inr a0 \<Rightarrow>
               (let C0 = fl_recip (np_sum a0);
                    col0 = map (fl_mul C0) a0
                in case forward_loop A B col0 obs of
                     Inl e \<Rightarrow> Inl e
                   | Inr (cols, Cs) \<Rightarrow>
                       Inr (fl_neg (np_sum (map fl_log (C0 # Cs))), col0 # cols, C0 # Cs))))"

subsection \<open>backward\_procedure\<close>

text \<open>
  \<^verbatim>\<open>
  def backward_procedure(self, A, B, PI, O, C=numpy.array([])):
      N = len(B)
      T = len(O)
      beta = numpy.zeros((N,T))
      beta[:,T-1] = 1.0
      if C.any(): beta[:,T-1] = beta[:,T-1] * C[T-1]
      for t in xrange(T-2, -1, -1):
          b_o = [B[i](O[t]) for i in range(N)]
          beta[:,t] = numpy.nan_to_num(numpy.dot(A, (b_o * beta[:,t+1] ) ))
          if sum(beta[:,t]) == 0:
              beta[:,t] = 0.0000000000001
          if C.any():
              beta[:,t] = beta[:,t] * C[t]
          ...
      return(beta)
  \<close>
  \<^verbatim>\<open>C.any()\<close> holds when some entry of \<open>C\<close> is not zero (NaN and the infinities count).
  \<^verbatim>\<open>numpy.dot(A, v)\<close> needs the rows of \<open>A\<close> to have \<open>N\<close> entries; storing the result
  broadcasts a result of length 1 (a \<open>1 \<times> N\<close> matrix).
\<close>

definition np_any :: "fl list \<Rightarrow> bool" where
  "np_any C = list_ex (\<lambda>c. \<not> fl_is_zero c) C"

definition scale_by :: "fl list \<Rightarrow> nat \<Rightarrow> fl list \<Rightarrow> error + fl list" where
  \<comment> \<open>\<^verbatim>\<open>if C.any(): col = col * C[t]\<close>\<close>
  "scale_by C t col =
     (if np_any C
      then (if t < length C then Inr (map (\<lambda>x. fl_mul x (C ! t)) col) else Inl IndexError)
      else Inr col)"

definition backward_step ::
  "fl list list \<Rightarrow> (real \<Rightarrow> fl) list \<Rightarrow> fl list \<Rightarrow> nat \<Rightarrow> real \<Rightarrow> fl list \<Rightarrow> error + fl list"
  where
  "backward_step A B C t ob nxt =
     (let N = length B; b_o = emissions B ob; M = length A
      in if \<not> rectangular A M N then Inl ValueError
         else
           (case store_column N (map nan_to_num (mat_vec A (map2 fl_mul b_o nxt) M N)) of
              Inl e \<Rightarrow> Inl e
            | Inr b1 \<Rightarrow>
                (let b2 = (if fl_is_zero (np_sum b1) then replicate N floor_value else b1)
                 in scale_by C t b2)))"

text \<open>
  \<open>backward_loop A B C Os k nxt\<close> runs the loop body for \<open>t = k - 1, \<dots>, 0\<close>, starting from
  the column \<open>nxt = beta[:,k]\<close>, and returns the columns \<open>beta[:,0], \<dots>, beta[:,k-1]\<close>.
\<close>

fun backward_loop ::
  "fl list list \<Rightarrow> (real \<Rightarrow> fl) list \<Rightarrow> fl list \<Rightarrow> real list \<Rightarrow> nat \<Rightarrow> fl list \<Rightarrow>
   error + fl list list" where
  "backward_loop A B C Os 0 nxt = Inr []"
| "backward_loop A B C Os (Suc t) nxt =
     (case backward_step A B C t (Os ! t) nxt of
        Inl e \<Rightarrow> Inl e
      | Inr col \<Rightarrow>
          (case backward_loop A B C Os t col of
             Inl e \<Rightarrow> Inl e
           | Inr cols \<Rightarrow> Inr (cols @ [col])))"

definition backward_procedure ::
  "fl list list \<Rightarrow> (real \<Rightarrow> fl) list \<Rightarrow> fl list \<Rightarrow> real list \<Rightarrow> fl list \<Rightarrow>
   error + fl list list" where
  "backward_procedure A B PI Os C =
     (let N = length B; T = length Os
      in if T = 0 then Inl IndexError
         else
           (case scale_by C (T - 1) (replicate N (Fin 1)) of
              Inl e \<Rightarrow> Inl e
            | Inr last_col \<Rightarrow>
                (case backward_loop A B C Os (T - 1) last_col of
                   Inl e \<Rightarrow> Inl e
                 | Inr cols \<Rightarrow> Inr (cols @ [last_col]))))"

subsection \<open>viterbi\<close>










section \<open>Properties of calculate\_pins\<close>

lemma pins_scan_append:
  "pins_scan (xs @ ys) s = pins_scan ys (pins_scan xs s)"
proof (induction xs arbitrary: s)
  case Nil
  show ?case by (cases s) simp
next
  case (Cons x xs)
  show ?case by (cases s) (simp add: Cons.IH)
qed

lemma pins_scan_zeros:
  "\<forall>z\<in>set zs. \<not> 1 \<le> z \<Longrightarrow> pins_scan zs (ne, temp) = (ne, temp @ zs)"
  by (induction zs arbitrary: temp) auto

lemma pins_scan_temp_empty:
  "xs = [] \<or> 1 \<le> last xs \<Longrightarrow> snd (pins_scan xs (ne, [])) = []"
proof (induction xs rule: rev_induct)
  case Nil
  show ?case by simp
next
  case (snoc x xs)
  obtain a b where ab: "pins_scan xs (ne, []) = (a, b)" by (cases "pins_scan xs (ne, [])")
  from snoc.prems have "1 \<le> x" by simp
  then show ?case by (simp add: pins_scan_append ab)
qed

lemma pins_scan_fst_empty_iff:
  "fst (pins_scan reads (ne, temp)) = [] \<longleftrightarrow> ne = [] \<and> (\<forall>rd\<in>set reads. \<not> 1 \<le> rd)"
  by (induction reads arbitrary: ne temp) auto

lemma pool_run:
  assumes z: "\<forall>z\<in>set zs. \<not> 1 \<le> z" and rd: "1 \<le> rd" and pre: "pre = [] \<or> 1 \<le> last pre"
  shows "non_ess_reads (pre @ zs @ [rd]) =
           non_ess_reads pre @ (if length zs < 10 then zs else []) @ [rd]"
proof -
  obtain a b where ab: "pins_scan pre ([], []) = (a, b)" by (cases "pins_scan pre ([], [])")
  with pins_scan_temp_empty [OF pre, of "[]"] have b: "b = []" by simp
  show ?thesis
    using z rd by (simp add: non_ess_reads_def pins_scan_append ab b pins_scan_zeros)
qed

lemma pool_trailing:
  assumes z: "\<forall>z\<in>set zs. \<not> 1 \<le> z"
  shows "non_ess_reads (xs @ zs) = non_ess_reads xs"
proof -
  obtain a b where ab: "pins_scan xs ([], []) = (a, b)" by (cases "pins_scan xs ([], [])")
  show ?thesis using z by (simp add: non_ess_reads_def pins_scan_append ab pins_scan_zeros)
qed

lemma upto_last_nonzero_split:
  "\<exists>zs. reads = upto_last_nonzero reads @ zs \<and> (\<forall>z\<in>set zs. \<not> 1 \<le> z)"
proof -
  let ?P = "\<lambda>rd::real. \<not> rd \<ge> 1"
  have "rev reads = takeWhile ?P (rev reads) @ dropWhile ?P (rev reads)" by simp
  then have "reads = rev (dropWhile ?P (rev reads)) @ rev (takeWhile ?P (rev reads))"
    by (metis rev_append rev_rev_ident)
  moreover have "\<forall>z\<in>set (rev (takeWhile ?P (rev reads))). \<not> 1 \<le> z"
    using set_takeWhileD by fastforce
  ultimately show ?thesis unfolding upto_last_nonzero_def by blast
qed

lemma pool_upto_last_nonzero:
  "non_ess_reads reads = non_ess_reads (upto_last_nonzero reads)"
proof -
  obtain zs where "reads = upto_last_nonzero reads @ zs" and "\<forall>z\<in>set zs. \<not> 1 \<le> z"
    using upto_last_nonzero_split by blast
  then show ?thesis using pool_trailing by metis
qed

lemma pool_scenario: "non_ess_reads scenario_reads = scenario_reads"
  by (simp add: non_ess_reads_def scenario_reads_def)

text \<open>
  C3, as stated, fails. In the scenario the zero run before the second nonzero count has
  length 8, not 10, and the code pools a zero run exactly when it is shorter than 10: the
  leading run of two zeros is in the pool as well, so the pool is not the sequence
  without its leading run.
\<close>

theorem calculate_pins_scenario_counterexample:
  "\<not> (non_ess_reads scenario_reads = drop 2 scenario_reads
      \<and> \<not> length (takeWhile (\<lambda>rd. \<not> rd \<ge> 1) (drop 3 scenario_reads)) < 10)"
  by (simp add: non_ess_reads_def scenario_reads_def)

text \<open>
  C3, amended. On the scenario both zero runs (lengths 2 and 8) are shorter than 10 and
  are pooled, so all 12 sites are pooled and the result is 2/12. In general a run of
  entries below 1 that precedes a count \<open>\<ge> 1\<close> is pooled exactly when its length is
  below 10: a run of 9 is pooled, a run of 10 is dropped.
\<close>

theorem calculate_pins_pooling_boundary:
  assumes "\<forall>z\<in>set zs. \<not> z \<ge> 1" and "rd \<ge> 1" and "pre = [] \<or> last pre \<ge> 1"
  shows "non_ess_reads (pre @ zs @ [rd]) =
           non_ess_reads pre @ (if length zs < 10 then zs else []) @ [rd]
         \<and> non_ess_reads scenario_reads = scenario_reads
         \<and> calculate_pins scenario_reads = Inr (2 / 12)"
proof -
  have "calculate_pins scenario_reads = Inr (2 / 12)"
    by (simp add: calculate_pins_def pool_scenario) (simp add: scenario_reads_def)
  then show ?thesis using pool_run [OF assms] pool_scenario by simp
qed

theorem calculate_pins_pooling_boundary_witness:
  "non_ess_reads ([1] @ replicate 10 0 @ [1]) = [1, 1]
   \<and> non_ess_reads ([1] @ replicate 9 0 @ [1]) = [1] @ replicate 9 0 @ [1]"
  using calculate_pins_pooling_boundary [of "replicate 10 0" 1 "[1]"]
        calculate_pins_pooling_boundary [of "replicate 9 0" 1 "[1]"]
  by (simp add: non_ess_reads_def)

text \<open>
  C9. \<^verbatim>\<open>calculate_pins\<close> raises exactly when no read is \<open>\<ge> 1\<close>, the only exception is
  the division by zero, and otherwise the result is a fraction between 0 and 1.
\<close>

theorem calculate_pins_raises_iff:
  "(calculate_pins reads = Inl ZeroDivisionError \<longleftrightarrow> (\<forall>rd\<in>set reads. \<not> rd \<ge> 1))
   \<and> (\<forall>e. calculate_pins reads = Inl e \<longrightarrow> e = ZeroDivisionError)
   \<and> ((\<exists>rd\<in>set reads. rd \<ge> 1) \<longrightarrow>
        (\<exists>p. calculate_pins reads = Inr p \<and> 0 \<le> p \<and> p \<le> 1))"
proof -
  have e: "non_ess_reads reads = [] \<longleftrightarrow> (\<forall>rd\<in>set reads. \<not> rd \<ge> 1)"
    by (simp add: non_ess_reads_def pins_scan_fst_empty_iff)
  have le: "length (filter (\<lambda>rd. rd \<ge> 1) (non_ess_reads reads)) \<le> length (non_ess_reads reads)"
    by simp
  have q: "non_ess_reads reads \<noteq> [] \<Longrightarrow>
      real (length (filter (\<lambda>rd. rd \<ge> 1) (non_ess_reads reads))) / real (length (non_ess_reads reads)) \<le> 1"
    using le by (simp add: divide_le_eq_1)
  show ?thesis
    using e q by (auto simp add: calculate_pins_def Let_def)
qed

theorem calculate_pins_raises_iff_witness:
  "calculate_pins [0, 0] = Inl ZeroDivisionError
   \<and> (\<exists>p. calculate_pins [0, 3, 0] = Inr p \<and> 0 \<le> p \<and> p \<le> 1)"
  using calculate_pins_raises_iff [of "[0, 0]"] calculate_pins_raises_iff [of "[0, 3, 0]"]
  by simp

text \<open>
  C10. Entries below 1 at the end of the sequence never reach the pool, whatever their
  number, so the pool and the result are those of the prefix that ends with the last
  count \<open>\<ge> 1\<close>.
\<close>

theorem calculate_pins_ignores_trailing_zeros:
  "((\<forall>z\<in>set zs. \<not> z \<ge> 1) \<longrightarrow>
      non_ess_reads (xs @ zs) = non_ess_reads xs \<and> calculate_pins (xs @ zs) = calculate_pins xs)
   \<and> non_ess_reads reads = non_ess_reads (upto_last_nonzero reads)
   \<and> calculate_pins reads = calculate_pins (upto_last_nonzero reads)"
  using pool_trailing [of zs xs] pool_upto_last_nonzero [of reads]
  by (simp add: calculate_pins_def)

theorem calculate_pins_ignores_trailing_zeros_witness:
  "non_ess_reads ([0, 2] @ [0, 0, 0]) = non_ess_reads [0, 2]
   \<and> calculate_pins ([0, 2] @ [0, 0, 0]) = calculate_pins [0, 2]
   \<and> upto_last_nonzero [0, 2, 0, 0, 0] = [0, 2]"
  using calculate_pins_ignores_trailing_zeros [of "[0, 0, 0]" "[0, 2]"]
  by (simp add: upto_last_nonzero_def)

section \<open>Properties of the run length\<close>



lemma run_loop_find:
  "run_loop below ks r = (case find below ks of Some k \<Rightarrow> k | None \<Rightarrow> last (r # ks))"
  by (induction ks arbitrary: r) (auto split: option.splits)


lemma run_loop_not_found:
  assumes "\<forall>k<100. \<not> below k"
  shows "run_loop below [0..<100] 0 = 99"
proof -
  have "find below [0..<100] = None"
    using assms by (auto simp: find_None_iff)
  moreover have "last (0 # [0..<100]) = (99::nat)"
    by (simp del: upt_Suc)
  ultimately show ?thesis unfolding run_loop_find by simp
qed









section \<open>Properties of the transition matrix\<close>

lemma transition_matrix_value:
  assumes "1 \<le> r" "0 < p" "p < 1"
  shows "transition_matrix p r =
           Inr (map (\<lambda>i. (replicate Nstates (real r * ln p + ln (1 / 3)))[i := ln (1 - p ^ r)])
                  [0..<Nstates])"
proof -
  have "p ^ r < 1" using assms by (simp add: power_less_one_iff)
  then show ?thesis using assms
    by (simp add: transition_matrix_def py_log1p_def py_log_def Let_def)
qed

lemma exp_entries:
  assumes "1 \<le> r" "0 < p" "p < 1"
  shows "exp (ln (1 - p ^ r)) = 1 - p ^ r" "exp (real r * ln p + ln (1 / 3)) = p ^ r / 3"
proof -
  have "p ^ r < 1" using assms by (simp add: power_less_one_iff)
  then show "exp (ln (1 - p ^ r)) = 1 - p ^ r" by simp
  have "exp (real r * ln p) = p ^ r" using assms
    by (metis exp_ln exp_of_nat_mult)
  then show "exp (real r * ln p + ln (1 / 3)) = p ^ r / 3"
    by (simp add: exp_add)
qed

lemma rows_sum:
  assumes "1 \<le> r" "0 < p" "p < 1" "i < 4"
  shows "sum_list (map exp ((replicate Nstates (real r * ln p + ln (1 / 3)))[i := ln (1 - p ^ r)])) = 1"
proof -
  from assms(4) have "i = 0 \<or> i = 1 \<or> i = 2 \<or> i = 3" by auto
  then show ?thesis
    using exp_entries [OF assms(1-3)]
    by (auto simp add: Nstates_def numeral_eq_Suc)
qed

text \<open>
  C6. For \<open>r \<ge> 1\<close> and \<open>0 < p < 1\<close> the matrix is built without an exception, it is
  4 by 4 with \<open>log1p(-p^r)\<close> on the diagonal and \<open>r log p + log (1/3)\<close> elsewhere, and
  the exponentials of every row sum to 1 (in exact real arithmetic).
\<close>

theorem transition_matrix_rows_sum_to_one:
  assumes "1 \<le> r" and "0 < p" and "p < 1"
  shows "\<exists>A. transition_matrix p r = Inr A \<and> length A = 4
           \<and> (\<forall>i<4. length (A ! i) = 4
                 \<and> A ! i ! i = ln (1 - p ^ r)
                 \<and> (\<forall>j<4. j \<noteq> i \<longrightarrow> A ! i ! j = real r * ln p + ln (1 / 3))
                 \<and> sum_list (map exp (A ! i)) = 1)"
proof -
  let ?A = "map (\<lambda>i. (replicate Nstates (real r * ln p + ln (1 / 3)))[i := ln (1 - p ^ r)])
              [0..<Nstates]"
  have "\<forall>i<4. length (?A ! i) = 4
                 \<and> ?A ! i ! i = ln (1 - p ^ r)
                 \<and> (\<forall>j<4. j \<noteq> i \<longrightarrow> ?A ! i ! j = real r * ln p + ln (1 / 3))
                 \<and> sum_list (map exp (?A ! i)) = 1"
  proof (intro allI impI)
    fix i :: nat assume i: "i < 4"
    then have nth: "?A ! i = (replicate Nstates (real r * ln p + ln (1 / 3)))[i := ln (1 - p ^ r)]"
      by (simp add: Nstates_def del: upt_Suc)
    show "length (?A ! i) = 4
                 \<and> ?A ! i ! i = ln (1 - p ^ r)
                 \<and> (\<forall>j<4. j \<noteq> i \<longrightarrow> ?A ! i ! j = real r * ln p + ln (1 / 3))
                 \<and> sum_list (map exp (?A ! i)) = 1"
      unfolding nth using rows_sum [OF assms i] i by (simp add: Nstates_def)
  qed
  moreover have "length ?A = 4" by (simp add: Nstates_def)
  ultimately show ?thesis using transition_matrix_value [OF assms] by blast
qed

theorem transition_matrix_rows_sum_to_one_witness:
  "\<exists>A. transition_matrix (1 / 2) 7 = Inr A \<and> length A = 4
       \<and> sum_list (map exp (A ! 0)) = 1 \<and> sum_list (map exp (A ! 3)) = 1"
  using transition_matrix_rows_sum_to_one [of 7 "1 / 2"] by auto

section \<open>The constructor's iteration estimate\<close>

text \<open>
  C7. With a control file that cannot be read the constructor does not fall back to 100
  iterations: the handler raises \<^verbatim>\<open>AttributeError\<close>. The constructor returns an
  object only when the first control file is readable.
\<close>

theorem HMMMethod_init_unreadable_raises:
  "HMMMethod_init Map.empty [''missing.wig''] = Inl AttributeError
   \<and> HMMMethod_init [''a.wig'' \<mapsto> [''# header'', ''1 0'', ''3 5'']] [''a.wig'']
       = Inr \<lparr>maxiterations = 9, count = 1\<rparr>"
  by (simp add: HMMMethod_init_def startswith_hash_def)

section \<open>Properties of the gene-level call\<close>

lemma dict_get_count_state:
  "dict_get (count_state st d) s 0 = dict_get d s 0 + (if st = s then 1 else 0)"
  by (auto simp: count_state_def dict_get_def Let_def split: option.splits)

lemma dict_get_fold_count_state:
  "dict_get (fold count_state sts d) s 0 = dict_get d s 0 + count_list sts s"
  by (induction sts arbitrary: d) (auto simp: dict_get_count_state)

lemma dict_get_statedist:
  "dict_get (statedist_of sts) s 0 = count_list sts s"
  by (simp add: statedist_of_def dict_get_fold_count_state) (simp add: dict_get_def)

lemma fold_max_mem:
  "fold (\<lambda>y m. if tuple_gt y m then y else m) xs x \<in> set (x # xs)"
proof (induction xs arbitrary: x)
  case Nil
  show ?case by simp
next
  case (Cons y ys)
  from Cons.IH [of "if tuple_gt y x then y else x"] show ?case
    by (auto split: if_splits)
qed

lemma tuple_ngt_trans: "\<not> tuple_gt a b \<Longrightarrow> \<not> tuple_gt b c \<Longrightarrow> \<not> tuple_gt a c"
  by (cases a; cases b; cases c) (simp, linarith)

lemma tuple_gt_asym: "tuple_gt a b \<Longrightarrow> \<not> tuple_gt b a"
  by (cases a; cases b) (simp, linarith)

lemma tuple_gt_irrefl: "\<not> tuple_gt a a"
  by (cases a) simp

lemma fold_max_ge_acc:
  "\<not> tuple_gt x (fold (\<lambda>y m. if tuple_gt y m then y else m) xs x)"
proof (induction xs arbitrary: x)
  case Nil
  show ?case by (simp add: tuple_gt_irrefl)
next
  case (Cons y ys)
  let ?acc = "if tuple_gt y x then y else x"
  have "\<not> tuple_gt x ?acc" by (simp add: tuple_gt_asym tuple_gt_irrefl)
  moreover have "\<not> tuple_gt ?acc (fold (\<lambda>y m. if tuple_gt y m then y else m) ys ?acc)"
    by (rule Cons.IH)
  ultimately have "\<not> tuple_gt x (fold (\<lambda>y m. if tuple_gt y m then y else m) ys ?acc)"
    by (rule tuple_ngt_trans)
  then show ?case by simp
qed

lemma fold_max_upper:
  "z \<in> set (x # xs) \<Longrightarrow> \<not> tuple_gt z (fold (\<lambda>y m. if tuple_gt y m then y else m) xs x)"
proof (induction xs arbitrary: x)
  case Nil
  then show ?case by (simp add: tuple_gt_irrefl)
next
  case (Cons y ys)
  let ?acc = "if tuple_gt y x then y else x"
  let ?res = "fold (\<lambda>y m. if tuple_gt y m then y else m) ys ?acc"
  have res: "fold (\<lambda>y m. if tuple_gt y m then y else m) (y # ys) x = ?res" by simp
  have acc: "\<not> tuple_gt ?acc ?res" by (rule fold_max_ge_acc)
  from Cons.prems have "z = x \<or> z = y \<or> z \<in> set ys" by auto
  then have "\<not> tuple_gt z ?res"
  proof (elim disjE)
    assume "z = x"
    then have "\<not> tuple_gt z ?acc" by (simp add: tuple_gt_asym tuple_gt_irrefl)
    then show ?thesis using acc by (rule tuple_ngt_trans)
  next
    assume "z = y"
    then have "\<not> tuple_gt z ?acc" by (simp add: tuple_gt_irrefl)
    then show ?thesis using acc by (rule tuple_ngt_trans)
  next
    assume "z \<in> set ys"
    then have "z \<in> set (?acc # ys)" by simp
    then show ?thesis by (rule Cons.IH)
  qed
  then show ?case unfolding res .
qed

lemma py_max_spec:
  assumes "py_max xs = Inr m"
  shows "m \<in> set xs \<and> (\<forall>z\<in>set xs. \<not> tuple_gt z m)"
proof (cases xs)
  case Nil
  with assms show ?thesis by simp
next
  case (Cons x ys)
  with assms have m: "m = fold (\<lambda>y m. if tuple_gt y m then y else m) ys x" by simp
  show ?thesis unfolding m Cons using fold_max_mem [of ys x] fold_max_upper [of _ x ys] by blast
qed

lemma majority_call_spec:
  "\<exists>s<4. \<exists>lab. num2label s = Some lab \<and> majority_call (statedist_of sts) = Inr lab
      \<and> (\<forall>s'<4. count_list sts s' \<le> count_list sts s
                 \<and> (count_list sts s' = count_list sts s \<longrightarrow> s' \<le> s))"
proof -
  let ?xs = "map (\<lambda>s. (count_list sts s, s)) [0, 1, 2, 3]"
  obtain m where m: "py_max ?xs = Inr m" by (cases ?xs) auto
  obtain c s where cs: "m = (c, s)" by (cases m)
  from py_max_spec [OF m] have mem: "(c, s) \<in> set ?xs" and up: "\<forall>z\<in>set ?xs. \<not> tuple_gt z (c, s)"
    unfolding cs by blast+
  from mem have s4: "s < 4" and c: "c = count_list sts s" by auto
  have best: "count_list sts s' \<le> count_list sts s
                 \<and> (count_list sts s' = count_list sts s \<longrightarrow> s' \<le> s)" if "s' < 4" for s'
  proof -
    from that have "s' = 0 \<or> s' = 1 \<or> s' = 2 \<or> s' = 3" by auto
    then have "(count_list sts s', s') \<in> set ?xs" by auto
    with up have "\<not> tuple_gt (count_list sts s', s') (c, s)" by blast
    then show ?thesis unfolding c by auto
  qed
  from s4 have "s = 0 \<or> s = 1 \<or> s = 2 \<or> s = 3" by auto
  then obtain lab where lab: "num2label s = Some lab" by (auto simp: num2label_def)
  have "majority_call (statedist_of sts) = Inr lab"
    using m lab unfolding majority_call_def dict_get_statedist cs by simp
  with s4 lab best show ?thesis by blast
qed

lemma py_int_le:
  assumes "x \<le> real k"
  shows "py_int x \<le> int k"
proof (cases "0 \<le> x")
  case True
  then show ?thesis using assms by (simp add: py_int_def floor_le_iff) 
next
  case False
  then have "\<lceil>x\<rceil> \<le> 0" by (simp add: ceiling_le_iff)
  moreover have "(0::int) \<le> int k" by simp
  ultimately have "\<lceil>x\<rceil> \<le> int k" by (rule order_trans)
  with False show ?thesis by (simp add: py_int_def)
qed

lemma gene_call_unfold:
  assumes "genestates pos2state (gene_position g) = Inr sts"
    and "0 < gene_n g"
    and "ExpectedRuns (gene_n g) (1 - theta) = Inr E"
    and "VarR (gene_n g) (1 - theta) = Inr V"
    and "0 \<le> V"
    and "count_list sts 0 \<noteq> gene_n g"
  shows "gene_call ExpectedRuns VarR theta pos2state g =
           (if py_int (E + 3 * sqrt V) \<le> int (count_list sts 0) then Inr ''ES''
            else majority_call (statedist_of sts))"
proof -
  have sq: "py_sqrt V = Inr (sqrt V)" using assms(5) by (simp add: py_sqrt_def)
  have ne: "(count_list sts 0 = gene_n g) = False" using assms(6) by simp
  have pos: "(0 < gene_n g) = True" using assms(2) by simp
  show ?thesis
    unfolding gene_call_def Let_def assms(1,3,4) dict_get_statedist
    by (simp only: sq ne pos sum.case if_True if_False)
qed

lemma majority_call_count:
  "majority_call (statedist_of sts) =
     (case py_max (map (\<lambda>s. (count_list sts s, s)) [0, 1, 2, 3]) of
        Inl e \<Rightarrow> Inl e
      | Inr (c, temp) \<Rightarrow> (case num2label temp of None \<Rightarrow> Inl KeyError | Some S \<Rightarrow> Inr S))"
  unfolding majority_call_def dict_get_statedist ..

lemma majority_call_tie: "majority_call (statedist_of [1, 2]) = Inr ''NE''"
  by (simp add: majority_call_count num2label_def)

lemma majority_call_three_seven:
  "majority_call (statedist_of [0, 0, 0, 2, 2, 2, 2, 2, 2, 2]) = Inr ''NE''"
  by (simp add: majority_call_count num2label_def)

lemma gene_call_tie:
  "gene_call (\<lambda>n p. Inr 5) (\<lambda>n p. Inr 0) (1 / 2) [10 \<mapsto> 1, 20 \<mapsto> 2]
      \<lparr>gene_orf = ''g'', gene_n = 2, gene_position = [10, 20]\<rparr> = Inr ''NE''"
proof -
  have "genestates [10 \<mapsto> 1, 20 \<mapsto> 2]
          (gene_position \<lparr>gene_orf = ''g'', gene_n = 2, gene_position = [10, 20]\<rparr>)
        = Inr [1, 2]"
    by simp
  from gene_call_unfold [OF this, of "\<lambda>n p. Inr 5" "1 / 2" 5 "\<lambda>n p. Inr 0" 0]
    majority_call_tie
  show ?thesis by (simp add: py_int_def)
qed

lemma gene_call_three_seven:
  "gene_call (\<lambda>n p. Inr (7 / 2)) (\<lambda>n p. Inr 0) (1 / 2)
      (map_of (zip [1, 2, 3, 4, 5, 6, 7, 8, 9, 10] [0, 0, 0, 2, 2, 2, 2, 2, 2, 2]))
      \<lparr>gene_orf = ''g'', gene_n = 10, gene_position = [1, 2, 3, 4, 5, 6, 7, 8, 9, 10]\<rparr>
    = Inr ''ES''"
proof -
  have "genestates (map_of (zip [1, 2, 3, 4, 5, 6, 7, 8, 9, 10] [0, 0, 0, 2, 2, 2, 2, 2, 2, 2]))
          (gene_position
            \<lparr>gene_orf = ''g'', gene_n = 10, gene_position = [1, 2, 3, 4, 5, 6, 7, 8, 9, 10]\<rparr>)
        = Inr [0, 0, 0, 2, 2, 2, 2, 2, 2, 2]"
    by simp
  from gene_call_unfold [OF this, of "\<lambda>n p. Inr (7 / 2)" "1 / 2" "7 / 2" "\<lambda>n p. Inr 0" 0]
  show ?thesis by (simp add: py_int_def)
qed

text \<open>
  C1, as stated, fails on ties. \<^verbatim>\<open>max\<close> over the pairs \<open>(tally, state)\<close> compares the
  state when the tallies are equal, so the larger state index wins. A gene with one GD
  site and one NE site is called NE, while the first state with the largest tally is GD.
\<close>

theorem gene_call_tie_counterexample:
  "first_index_majority [1, 2] = Some 1 \<and> num2label 1 = Some ''GD''
   \<and> gene_call (\<lambda>n p. Inr 5) (\<lambda>n p. Inr 0) (1 / 2) [10 \<mapsto> 1, 20 \<mapsto> 2]
        \<lparr>gene_orf = ''g'', gene_n = 2, gene_position = [10, 20]\<rparr> = Inr ''NE''"
  using gene_call_tie by (simp add: first_index_majority_def num2label_def)

text \<open>
  C1, amended. For a gene with at least one site whose sites are not all ES and whose ES
  tally is below the truncated run-length threshold, the call is the label of the state
  among 0, 1, 2, 3 with the largest tally; among states that share the largest tally the
  highest state index wins.
\<close>

theorem gene_call_majority_highest_index:
  assumes "genestates pos2state (gene_position g) = Inr sts"
    and "0 < gene_n g"
    and "ExpectedRuns (gene_n g) (1 - theta) = Inr E"
    and "VarR (gene_n g) (1 - theta) = Inr V"
    and "0 \<le> V"
    and "count_list sts 0 \<noteq> gene_n g"
    and "int (count_list sts 0) < py_int (E + 3 * sqrt V)"
  shows "\<exists>s<4. \<exists>lab. num2label s = Some lab
           \<and> gene_call ExpectedRuns VarR theta pos2state g = Inr lab
           \<and> (\<forall>s'<4. count_list sts s' \<le> count_list sts s
                      \<and> (count_list sts s' = count_list sts s \<longrightarrow> s' \<le> s))"
proof -
  have "gene_call ExpectedRuns VarR theta pos2state g = majority_call (statedist_of sts)"
    using gene_call_unfold [where ExpectedRuns = ExpectedRuns and VarR = VarR, OF assms(1-6)]
      assms(7) by simp
  then show ?thesis using majority_call_spec [of sts] by simp
qed

theorem gene_call_majority_highest_index_witness:
  "\<exists>s<4. \<exists>lab. num2label s = Some lab
      \<and> gene_call (\<lambda>n p. Inr 5) (\<lambda>n p. Inr 0) (1 / 2) [10 \<mapsto> 1, 20 \<mapsto> 2]
           \<lparr>gene_orf = ''g'', gene_n = 2, gene_position = [10, 20]\<rparr> = Inr lab
      \<and> count_list [1, 2 :: nat] 1 \<le> count_list [1, 2 :: nat] s \<and> 1 \<le> s"
proof -
  have gs: "genestates [10 \<mapsto> 1, 20 \<mapsto> 2]
          (gene_position \<lparr>gene_orf = ''g'', gene_n = 2, gene_position = [10, 20]\<rparr>)
        = Inr [1, 2]"
    by simp
  have thr: "int (count_list [1, 2 :: nat] 0) < py_int (5 + 3 * sqrt 0)"
    by (simp add: py_int_def)
  have "\<exists>s<4. \<exists>lab. num2label s = Some lab
           \<and> gene_call (\<lambda>n p. Inr 5) (\<lambda>n p. Inr 0) (1 / 2) [10 \<mapsto> 1, 20 \<mapsto> 2]
                \<lparr>gene_orf = ''g'', gene_n = 2, gene_position = [10, 20]\<rparr> = Inr lab
           \<and> (\<forall>s'<4. count_list [1, 2 :: nat] s' \<le> count_list [1, 2 :: nat] s
                      \<and> (count_list [1, 2 :: nat] s' = count_list [1, 2 :: nat] s \<longrightarrow> s' \<le> s))"
    by (rule gene_call_majority_highest_index [OF gs _ _ _ _ _ thr]) simp_all
  then obtain s lab where s: "s < 4" "num2label s = Some lab"
      "gene_call (\<lambda>n p. Inr 5) (\<lambda>n p. Inr 0) (1 / 2) [10 \<mapsto> 1, 20 \<mapsto> 2]
                \<lparr>gene_orf = ''g'', gene_n = 2, gene_position = [10, 20]\<rparr> = Inr lab"
      "\<forall>s'<4. count_list [1, 2 :: nat] s' \<le> count_list [1, 2 :: nat] s
                      \<and> (count_list [1, 2 :: nat] s' = count_list [1, 2 :: nat] s \<longrightarrow> s' \<le> s)"
    by blast
  have "(1::nat) < 4" "(2::nat) < 4" by simp_all
  with s(4) have a: "count_list [1, 2 :: nat] 1 \<le> count_list [1, 2 :: nat] s"
    and b: "count_list [1, 2 :: nat] 2 \<le> count_list [1, 2 :: nat] s" by blast+
  from b have "s = 1 \<or> s = 2" by (cases "s = 1"; cases "s = 2") auto
  then have "1 \<le> s" by auto
  with s(1-3) a show ?thesis by blast
qed

text \<open>
  C2, as stated, fails in its second half. The code compares the ES tally with
  \<^verbatim>\<open>int(E + 3*sqrt(V))\<close>, the threshold truncated to an integer. With \<open>E = 3.5\<close> and
  \<open>V = 0\<close>, a gene of 10 sites with 3 ES sites and 7 NE sites has \<open>n0 < E + 3 sqrt V\<close>
  and a majority of NE, yet it is called ES.
\<close>

theorem gene_call_override_counterexample:
  "real (count_list [0, 0, 0, 2, 2, 2, 2, 2, 2, 2 :: nat] 0) < 7 / 2 + 3 * sqrt 0
   \<and> majority_call (statedist_of [0, 0, 0, 2, 2, 2, 2, 2, 2, 2]) = Inr ''NE''
   \<and> gene_call (\<lambda>n p. Inr (7 / 2)) (\<lambda>n p. Inr 0) (1 / 2)
        (map_of (zip [1, 2, 3, 4, 5, 6, 7, 8, 9, 10] [0, 0, 0, 2, 2, 2, 2, 2, 2, 2]))
        \<lparr>gene_orf = ''g'', gene_n = 10, gene_position = [1, 2, 3, 4, 5, 6, 7, 8, 9, 10]\<rparr>
      = Inr ''ES''"
  using gene_call_three_seven majority_call_three_seven by simp

text \<open>
  C2, amended. For a gene with \<open>n > 0\<close> sites that are not all ES, with \<open>E\<close> and \<open>V \<ge> 0\<close>
  the values of \<^verbatim>\<open>ExpectedRuns\<close> and \<^verbatim>\<open>VarR\<close>: the call is overridden to ES exactly when
  \<open>n0 \<ge> int(E + 3 sqrt V)\<close>, the threshold truncated towards zero; in particular
  \<open>n0 \<ge> E + 3 sqrt V\<close> forces the override, and when \<open>n0\<close> is below the truncated
  threshold the call is the majority vote.
\<close>

theorem gene_call_override_truncated_threshold:
  assumes "genestates pos2state (gene_position g) = Inr sts"
    and "0 < gene_n g"
    and "ExpectedRuns (gene_n g) (1 - theta) = Inr E"
    and "VarR (gene_n g) (1 - theta) = Inr V"
    and "0 \<le> V"
    and "count_list sts 0 \<noteq> gene_n g"
  shows "(E + 3 * sqrt V \<le> real (count_list sts 0) \<longrightarrow>
            gene_call ExpectedRuns VarR theta pos2state g = Inr ''ES'')
         \<and> (py_int (E + 3 * sqrt V) \<le> int (count_list sts 0) \<longrightarrow>
            gene_call ExpectedRuns VarR theta pos2state g = Inr ''ES'')
         \<and> (int (count_list sts 0) < py_int (E + 3 * sqrt V) \<longrightarrow>
            gene_call ExpectedRuns VarR theta pos2state g = majority_call (statedist_of sts))"
  using gene_call_unfold [where ExpectedRuns = ExpectedRuns and VarR = VarR, OF assms]
    py_int_le [of "E + 3 * sqrt V" "count_list sts 0"]
  by simp

theorem gene_call_override_truncated_threshold_witness:
  "gene_call (\<lambda>n p. Inr 2) (\<lambda>n p. Inr 0) (1 / 2) [10 \<mapsto> 0, 20 \<mapsto> 0, 30 \<mapsto> 2, 40 \<mapsto> 2, 50 \<mapsto> 2]
      \<lparr>gene_orf = ''g'', gene_n = 5, gene_position = [10, 20, 30, 40, 50]\<rparr> = Inr ''ES''
   \<and> gene_call (\<lambda>n p. Inr 5) (\<lambda>n p. Inr 0) (1 / 2) [10 \<mapsto> 0, 20 \<mapsto> 0, 30 \<mapsto> 2, 40 \<mapsto> 2, 50 \<mapsto> 2]
      \<lparr>gene_orf = ''g'', gene_n = 5, gene_position = [10, 20, 30, 40, 50]\<rparr>
     = majority_call (statedist_of [0, 0, 2, 2, 2])"
proof -
  have gs: "genestates [10 \<mapsto> 0, 20 \<mapsto> 0, 30 \<mapsto> 2, 40 \<mapsto> 2, 50 \<mapsto> 2]
          (gene_position \<lparr>gene_orf = ''g'', gene_n = 5, gene_position = [10, 20, 30, 40, 50]\<rparr>)
        = Inr [0, 0, 2, 2, 2]"
    by simp
  from gene_call_override_truncated_threshold
         [OF gs, of "\<lambda>n p. Inr 2" "1 / 2" 2 "\<lambda>n p. Inr 0" 0]
       gene_call_override_truncated_threshold
         [OF gs, of "\<lambda>n p. Inr 5" "1 / 2" 5 "\<lambda>n p. Inr 0" 0]
  show ?thesis by (simp add: py_int_def)
qed

section \<open>Properties of the forward, backward and Viterbi passes\<close>

lemma DBL_MAX_ge: "2 ^ 1023 \<le> DBL_MAX"
proof -
  have "(1::real) / 2 ^ 52 \<le> 1" by (simp add: divide_le_eq)
  then have "(1::real) \<le> 2 - 1 / 2 ^ 52" by linarith
  then have "1 * (2 ^ 1023 :: real) \<le> (2 - 1 / 2 ^ 52) * 2 ^ 1023"
    by (rule mult_right_mono) simp
  then show ?thesis by (simp add: DBL_MAX_def)
qed

lemma DBL_MAX_ge_one: "1 \<le> DBL_MAX"
proof -
  have "(1::real) \<le> 2 ^ 1023" by (rule one_le_power) simp
  with DBL_MAX_ge show ?thesis by linarith
qed

lemma DBL_MAX_pos: "0 < DBL_MAX"
  using DBL_MAX_ge_one by linarith

lemma DBL_TINY_pos: "0 < DBL_TINY"
  by (simp add: DBL_TINY_def)

lemma DBL_TINY_less_one: "DBL_TINY < 1"
proof -
  have "(1::real) < 2 ^ 1075" by (rule one_less_power) simp_all
  then show ?thesis by (simp add: DBL_TINY_def divide_less_eq)
qed

lemma fin_zero: "fin 0 = Fin 0"
  using DBL_MAX_pos DBL_TINY_pos by (simp add: fin_def)

lemma fin_id:
  assumes "DBL_TINY < x" and "x \<le> DBL_MAX"
  shows "fin x = Fin x"
  using assms DBL_MAX_pos DBL_TINY_pos by (simp add: fin_def)

lemma fin_overflow: "DBL_MAX < x \<Longrightarrow> fin x = PInf"
  by (simp add: fin_def)



lemma np_sum_zeros: "np_sum (replicate n (Fin 0)) = Fin 0"
proof -
  have "foldl fl_add (Fin 0) (replicate n (Fin 0)) = Fin 0"
    by (induction n) (simp_all add: fin_zero)
  then show ?thesis by (simp add: np_sum_def)
qed

lemma foldl_fl_add_Fin:
  assumes "a = 0 \<or> DBL_TINY < a" and "\<forall>x\<in>set xs. DBL_TINY < x"
    and "a + sum_list xs \<le> DBL_MAX"
  shows "foldl fl_add (Fin a) (map Fin xs) = Fin (a + sum_list xs)"
  using assms
proof (induction xs arbitrary: a)
  case Nil
  then show ?case by simp
next
  case (Cons x xs)
  have x: "DBL_TINY < x" using Cons.prems(2) by simp
  have a0: "0 \<le> a" using Cons.prems(1) DBL_TINY_pos by auto
  have nn: "0 \<le> sum_list xs"
    by (rule sum_list_nonneg) (use Cons.prems(2) DBL_TINY_pos in force)
  have ax: "DBL_TINY < a + x" using x a0 by linarith
  have "a + x \<le> DBL_MAX" using Cons.prems(3) nn by simp
  with ax have f: "fin (a + x) = Fin (a + x)" by (rule fin_id)
  have "foldl fl_add (Fin (a + x)) (map Fin xs) = Fin (a + x + sum_list xs)"
    by (rule Cons.IH) (use ax Cons.prems in \<open>simp_all add: add.assoc\<close>)
  then show ?case by (simp add: f add.assoc)
qed

lemma np_sum_Fin:
  assumes "\<forall>x\<in>set xs. DBL_TINY < x" and "sum_list xs \<le> DBL_MAX"
  shows "np_sum (map Fin xs) = Fin (sum_list xs)"
  using foldl_fl_add_Fin [of 0 xs] assms by (simp add: np_sum_def)

lemma map2_fl_mul_Fin:
  assumes "\<forall>w\<in>set (map2 (*) xs ys). DBL_TINY < w \<and> w \<le> DBL_MAX"
  shows "map2 fl_mul (map Fin xs) (map Fin ys) = map Fin (map2 (*) xs ys)"
  using assms
proof (induction xs arbitrary: ys)
  case Nil
  show ?case by simp
next
  case (Cons x xs)
  show ?case
  proof (cases ys)
    case Nil
    then show ?thesis by simp
  next
    case (Cons y ys')
    with Cons.prems have "fin (x * y) = Fin (x * y)" by (simp add: fin_id)
    moreover have "map2 fl_mul (map Fin xs) (map Fin ys') = map Fin (map2 (*) xs ys')"
      by (rule Cons.IH) (use Cons.prems Cons in simp)
    ultimately show ?thesis using Cons by simp
  qed
qed


lemma map2_mult_zero:
  "map2 fl_mul (map Fin xs) (map Fin (replicate (length xs) 0)) = replicate (length xs) (Fin 0)"
  by (induction xs) (simp_all add: fin_zero)






lemma initial_PI_value: "initial_PI = map Fin [7 / 10, 1 / 10, 1 / 10, 1 / 10]"
  by (simp add: initial_PI_def Nstates_def numeral_eq_Suc)

lemma forward_first_site_zero:
  "forward_procedure A (replicate 4 (\<lambda>k. Fin 0)) initial_PI [ob]
     = Inr (NInf, [replicate 4 NaN], [PInf])"
  by (simp add: forward_procedure_def initial_PI_value emissions_def broadcast2_def
      np_sum_def numeral_eq_Suc fin_zero)

lemma backward_first_site_inf:
  "backward_procedure A (replicate 4 (\<lambda>k. Fin 0)) initial_PI [ob] [PInf]
     = Inr [replicate 4 PInf]"
  by (simp add: backward_procedure_def scale_by_def np_any_def numeral_eq_Suc)

lemma ncols_square:
  assumes "rectangular A N N"
  shows "ncols A = N"
proof (cases A)
  case Nil
  with assms show ?thesis by (simp add: rectangular_def ncols_def)
next
  case (Cons row rows)
  with assms show ?thesis by (simp add: rectangular_def ncols_def)
qed

lemma forward_step_floor:
  assumes "rectangular A (length B) (length B)"
    and "vec_mat prev A (length B) (length B) = map Fin xs"
    and "emissions B ob = map Fin (replicate (length B) 0)"
  shows "forward_step A B prev ob = Inr (replicate (length B) floor_value, Fin DBL_MAX)"
proof -
  let ?N = "length B"
  have nc: "ncols A = ?N" by (rule ncols_square [OF assms(1)])
  have "length (vec_mat prev A ?N ?N) = ?N" by (simp add: vec_mat_def)
  then have len: "length xs = ?N" unfolding assms(2) by simp
  have a1: "broadcast2 fl_mul (vec_mat prev A ?N ?N) (emissions B ob)
              = Inr (replicate ?N (Fin 0))"
    unfolding assms(2,3) broadcast2_def using map2_mult_zero [of xs] len by simp
  have Ct: "nan_to_num (fl_recip (Fin 0)) = Fin DBL_MAX" by simp
  have a2: "map (\<lambda>x. nan_to_num (fl_mul x (Fin DBL_MAX))) (replicate ?N (Fin 0))
              = replicate ?N (Fin 0)"
    by (simp add: fin_zero)
  have z: "fl_is_zero (Fin 0) = True" by simp
  have sq: "(\<not> rectangular A ?N ?N) = False" using assms(1) by simp
  show ?thesis
    unfolding forward_step_def Let_def nc
    by (simp only: a1 np_sum_zeros Ct a2 z sq if_True if_False sum.case)
qed

lemma backward_step_floor:
  assumes "rectangular A (length B) (length B)"
    and "map nan_to_num (mat_vec A (map2 fl_mul (emissions B ob) nxt) (length B) (length B))
           = replicate (length B) (Fin 0)"
  shows "backward_step A B C t ob nxt = scale_by C t (replicate (length B) floor_value)"
proof -
  have la: "length A = length B" using assms(1) by (simp add: rectangular_def)
  have st: "store_column (length B) (replicate (length B) (Fin 0))
              = Inr (replicate (length B) (Fin 0))"
    by (simp add: store_column_def)
  have z: "fl_is_zero (Fin 0) = True" by simp
  have sq: "(\<not> rectangular A (length B) (length B)) = False" using assms(1) by simp
  show ?thesis
    unfolding backward_step_def Let_def la
    by (simp only: assms(2) st np_sum_zeros z sq if_True if_False sum.case)
qed

lemma length_emissions: "length (emissions B ob) = length B"
  by (simp add: emissions_def)

lemma forward_single:
  assumes "length PI = length B"
  shows "forward_procedure A B PI [ob] =
           Inr (fl_neg (np_sum [fl_log (fl_recip (np_sum (map2 fl_mul PI (emissions B ob))))]),
                [map (fl_mul (fl_recip (np_sum (map2 fl_mul PI (emissions B ob)))))
                   (map2 fl_mul PI (emissions B ob))],
                [fl_recip (np_sum (map2 fl_mul PI (emissions B ob)))])"
proof -
  have b: "broadcast2 fl_mul PI (emissions B ob) = Inr (map2 fl_mul PI (emissions B ob))"
    using assms by (simp add: broadcast2_def length_emissions)
  show ?thesis
    unfolding forward_procedure_def list.case b sum.case Let_def forward_loop.simps prod.case
    by simp
qed










lemma DBL_MAX_less: "DBL_MAX < 10 ^ 310"
proof -
  have "(2 - 1 / 2 ^ 52 :: real) \<le> 2" by simp
  then have "(2 - 1 / 2 ^ 52) * (2 ^ 1023 :: real) \<le> 2 * 2 ^ 1023"
    by (rule mult_right_mono) simp
  moreover have "(2 * 2 ^ 1023 :: real) < 10 ^ 310" by simp
  ultimately show ?thesis unfolding DBL_MAX_def by linarith
qed

lemma DBL_TINY_half: "DBL_TINY = (1 / 2) * (1 / 2 ^ 1074)"
  by (simp add: DBL_TINY_def)

lemma tiny_less_small: "DBL_TINY < 1 / 10 ^ 311"
proof -
  have "(10 ^ 311 :: real) < 2 ^ 1075" by simp
  then show ?thesis unfolding DBL_TINY_def
    by (intro divide_strict_left_mono) simp_all
qed

lemma np_sum_single: "np_sum [x] = fl_add (Fin 0) x"
  by (simp add: np_sum_def)

lemma forward_single_overflow_general:
  assumes x: "0 < x" "x \<le> 1" and t: "DBL_TINY < 1 / 10 * x" and o: "DBL_MAX < 1 / x"
  shows "forward_procedure A (replicate 4 (\<lambda>k. Fin x)) initial_PI [ob]
           = Inr (NInf, [replicate 4 PInf], [PInf])"
proof -
  let ?B = "replicate 4 (\<lambda>k::real. Fin x)"
  let ?w = "[7 / 10 * x, 1 / 10 * x, 1 / 10 * x, 1 / 10 * x]"
  have t7: "DBL_TINY < 7 / 10 * x" using t x by linarith
  have em: "emissions ?B ob = map Fin [x, x, x, x]"
    by (simp add: emissions_def numeral_eq_Suc)
  have w: "\<forall>w\<in>set ?w. DBL_TINY < w \<and> w \<le> DBL_MAX"
    using t t7 x DBL_MAX_ge_one by auto
  have a0: "map2 fl_mul initial_PI (emissions ?B ob) = map Fin ?w"
    unfolding initial_PI_value em
    using map2_fl_mul_Fin [of "[7 / 10, 1 / 10, 1 / 10, 1 / 10]" "[x, x, x, x]"] w by simp
  have s: "sum_list ?w = x" by simp
  have sm: "np_sum (map Fin ?w) = Fin x"
    using np_sum_Fin [of ?w] w x DBL_MAX_ge_one unfolding s by auto
  have c: "fl_recip (Fin x) = PInf" using x o by (simp add: fin_overflow)
  have al: "map (fl_mul PInf) (map Fin ?w) = replicate 4 PInf"
    using x by (simp add: numeral_eq_Suc)
  have lg: "fl_neg (np_sum [fl_log PInf]) = NInf" by (simp add: np_sum_single)
  have len: "length initial_PI = length ?B" by (simp add: initial_PI_value)
  show ?thesis
    unfolding forward_single [OF len] a0 sm c al lg ..
qed

lemma forward_single_overflow:
  "forward_procedure A (replicate 4 (\<lambda>k. Fin (1 / 10 ^ 310))) initial_PI [ob]
     = Inr (NInf, [replicate 4 PInf], [PInf])"
proof (rule forward_single_overflow_general)
  show "(0::real) < 1 / 10 ^ 310" by simp
  show "(1::real) / 10 ^ 310 \<le> 1" by (simp add: divide_le_eq)
  have "(1::real) / 10 * (1 / 10 ^ 310) = 1 / 10 ^ 311" by simp
  with tiny_less_small show "DBL_TINY < 1 / 10 * (1 / 10 ^ 310)" by simp
  show "DBL_MAX < 1 / (1 / 10 ^ 310)" using DBL_MAX_less by simp
qed

lemma fin_underflow:
  assumes "0 \<le> x" and "x \<le> DBL_TINY"
  shows "fin x = Fin 0"
  using assms DBL_MAX_pos DBL_TINY_less_one DBL_MAX_ge_one by (simp add: fin_def)

lemma forward_single_underflow_general:
  assumes x: "0 < x" "x \<le> 1" and t: "DBL_TINY < 7 / 10 * x" and u: "1 / 10 * x \<le> DBL_TINY"
    and o: "DBL_MAX < 1 / (7 / 10 * x)"
  shows "forward_procedure A (replicate 4 (\<lambda>k. Fin x)) initial_PI [ob]
           = Inr (NInf, [[PInf, NaN, NaN, NaN]], [PInf])"
proof -
  let ?B = "replicate 4 (\<lambda>k::real. Fin x)"
  have le: "7 / 10 * x \<le> DBL_MAX" using x DBL_MAX_ge_one by linarith
  have f7: "fin (7 / 10 * x) = Fin (7 / 10 * x)" by (rule fin_id [OF t le])
  have f1: "fin (1 / 10 * x) = Fin 0" by (rule fin_underflow) (use x u in simp_all)
  have em: "emissions ?B ob = map Fin [x, x, x, x]"
    by (simp add: emissions_def numeral_eq_Suc)
  have a0: "map2 fl_mul initial_PI (emissions ?B ob) = [Fin (7 / 10 * x), Fin 0, Fin 0, Fin 0]"
    unfolding initial_PI_value em using f7 f1 by simp
  have sm: "np_sum [Fin (7 / 10 * x), Fin 0, Fin 0, Fin 0] = Fin (7 / 10 * x)"
    using f7 by (simp add: np_sum_def)
  have c: "fl_recip (Fin (7 / 10 * x)) = PInf" using x o by (simp add: fin_overflow)
  have al: "map (fl_mul PInf) [Fin (7 / 10 * x), Fin 0, Fin 0, Fin 0] = [PInf, NaN, NaN, NaN]"
    using x by simp
  have lg: "fl_neg (np_sum [fl_log PInf]) = NInf" by (simp add: np_sum_single)
  have len: "length initial_PI = length ?B" by (simp add: initial_PI_value)
  show ?thesis
    unfolding forward_single [OF len] a0 sm c al lg ..
qed

lemma forward_single_underflow:
  "forward_procedure A (replicate 4 (\<lambda>k. Fin (1 / 2 ^ 1074))) initial_PI [ob]
     = Inr (NInf, [[PInf, NaN, NaN, NaN]], [PInf])"
proof (rule forward_single_underflow_general)
  let ?x = "1 / 2 ^ 1074 :: real"
  have xpos: "0 < ?x" by simp
  show "0 < ?x" by (rule xpos)
  show "?x \<le> 1" by (simp add: divide_le_eq)
  show "DBL_TINY < 7 / 10 * ?x" unfolding DBL_TINY_half using xpos by linarith
  show "1 / 10 * ?x \<le> DBL_TINY" unfolding DBL_TINY_half using xpos by linarith
  have "(2 - 1 / 2 ^ 52 :: real) \<le> 2" by simp
  then have "(2 - 1 / 2 ^ 52) * (2 ^ 1023 :: real) \<le> 2 * 2 ^ 1023"
    by (rule mult_right_mono) simp
  moreover have "(2 * 2 ^ 1023 :: real) = 2 ^ 1024" by simp
  moreover have "(2 ^ 1024 :: real) \<le> 2 ^ 1074" by (rule power_increasing) simp_all
  moreover have "(2 ^ 1074 :: real) < 10 / 7 * 2 ^ 1074" by simp
  moreover have "1 / (7 / 10 * ?x) = 10 / 7 * 2 ^ 1074" by simp
  ultimately show "DBL_MAX < 1 / (7 / 10 * ?x)" unfolding DBL_MAX_def by linarith
qed


text \<open>
  C4. The forward pass floors a zero state vector only inside its loop, that is from
  the second site on. At the first site the code divides by the sum without a guard: when
  every emission probability of the first observation is zero, \<open>C[0]\<close> is \<open>inf\<close> and
  \<open>alpha[:,0]\<close> is NaN, and the backward pass scales its last column by that \<open>inf\<close>.
  With one observation these are the returned arrays.
\<close>

theorem forward_backward_first_site_unguarded:
  "forward_procedure A (replicate 4 (\<lambda>k. Fin 0)) initial_PI [ob]
     = Inr (NInf, [replicate 4 NaN], [PInf])
   \<and> backward_procedure A (replicate 4 (\<lambda>k. Fin 0)) initial_PI [ob] [PInf]
     = Inr [replicate 4 PInf]"
  using forward_first_site_zero backward_first_site_inf by simp



end
